theory Spec2Isabelle
  imports Complex_Main "HOL-Library.AList"
begin

section \<open>Values, rows and the session state\<close>

text \<open>
  Rows exchanged with the backing store are Python dictionaries from column names to
  JSON values.  A dictionary is an association list; \<open>map_of r c\<close> is the lookup and
  \<open>None\<close> the missing key.  Decimal amounts are exact rationals: the binary rounding
  of Python floats is not part of the model.
\<close>

datatype val = VNone | VBool bool | VInt int | VNum rat | VStr string

type_synonym row = "(string \<times> val) list"

datatype exn = IndexError | KeyError string | TypeError | ValueError | AttributeError string

text \<open>
  The dictionaries that the wizard itself builds have a fixed set of keys, so they are
  records and datatypes: a cart line (\<open>cart_item\<close> at line 748 of app.py) and the three
  step captures, each with the shapes the code assigns to it.
\<close>

record cart_item =
  product_id :: val
  name :: val
  quantity :: int
  unit_price :: rat
  line_total :: rat

datatype order_info =
  Order_unset
| Order_info (customer_id: val) (employee_id: val) (customer_name: string)
    (employee_name: string) (order_date: string) (status: string)

datatype payment_info =
  Payment_unset
| Payment_skipped
| Payment_made (pay_date: string) (pay_amount: rat) (pay_mode: string)

datatype transport_info =
  Transport_unset
| Transport_skipped
| Transport_added (vehicle_number: string) (driver_name: string) (transport_mode: string)
    (departure_date: string) (arrival_date: string) (t_status: string)

text \<open>
  \<open>st.session_state\<close>: every key may be absent (\<open>None\<close>), which is what
  \<open>'user' not in st.session_state\<close> and \<open>del st.session_state[key]\<close> are about.
\<close>

record session_state =
  user :: "row option"
  wizard_step :: "nat option"
  order_info :: "order_info option"
  cart :: "cart_item list option"
  payment_info :: "payment_info option"
  transport_info :: "transport_info option"

definition getitem :: "row \<Rightarrow> string \<Rightarrow> exn + val" where
  "getitem r k = (case map_of r k of None \<Rightarrow> Inl (KeyError k) | Some v \<Rightarrow> Inr v)"

section \<open>Authentication: \<open>check_permissions\<close>\<close>

definition check_permissions :: "session_state \<Rightarrow> string option \<Rightarrow> exn + bool" where
  "check_permissions ss required_role =
     (case user ss of
        None \<Rightarrow> Inr False
      | Some u \<Rightarrow>
          (case required_role of
             None \<Rightarrow> Inr True
           | Some rr \<Rightarrow>
               (case getitem u ''role'' of
                  Inl e \<Rightarrow> Inl e
                | Inr user_role \<Rightarrow>
                    if rr = ''Manager'' \<and> user_role \<noteq> VStr ''Manager'' then Inr False
                    else Inr True)))"

section \<open>Python operators on values\<close>

text \<open>
  \<open>==\<close> compares numbers by value across \<open>bool\<close>, \<open>int\<close> and \<open>float\<close>, and
  everything else structurally; \<open>norm\<close> is the numeric normal form.
\<close>

fun norm :: "val \<Rightarrow> val" where
  "norm (VBool b) = VNum (if b then 1 else 0)"
| "norm (VInt n) = VNum (of_int n)"
| "norm v = v"

definition py_eq :: "val \<Rightarrow> val \<Rightarrow> bool" where
  "py_eq a b = (norm a = norm b)"

text \<open>\<open>int(v)\<close>: truncation towards zero on a float; no number in \<open>None\<close>.  A string is
  parsed by Python; the model raises on it, and no row of \<open>prod_map\<close> below carries one
  (its construction compares the stock with 0, which raises on text).\<close>

fun py_int :: "val \<Rightarrow> exn + int" where
  "py_int (VInt n) = Inr n"
| "py_int (VBool b) = Inr (if b then 1 else 0)"
| "py_int (VNum q) = Inr (if 0 \<le> q then \<lfloor>q\<rfloor> else \<lceil>q\<rceil>)"
| "py_int VNone = Inl TypeError"
| "py_int (VStr s) = Inl ValueError"

text \<open>\<open>v > 0\<close>\<close>

fun py_gt0 :: "val \<Rightarrow> exn + bool" where
  "py_gt0 (VInt n) = Inr (0 < n)"
| "py_gt0 (VNum q) = Inr (0 < q)"
| "py_gt0 (VBool b) = Inr b"
| "py_gt0 VNone = Inl TypeError"
| "py_gt0 (VStr s) = Inl TypeError"

text \<open>\<open>v - q\<close> for an integer \<open>q\<close>\<close>

fun py_sub :: "val \<Rightarrow> int \<Rightarrow> exn + val" where
  "py_sub (VInt n) q = Inr (VInt (n - q))"
| "py_sub (VNum x) q = Inr (VNum (x - of_int q))"
| "py_sub (VBool b) q = Inr (VInt ((if b then 1 else 0) - q))"
| "py_sub VNone q = Inl TypeError"
| "py_sub (VStr s) q = Inl TypeError"

section \<open>The backing store\<close>

text \<open>
  The Supabase client is outside the repository.  Its model is a store of tables, each
  a list of rows, with a serial counter for the identifiers it assigns.  Any request
  may raise: \<open>faults\<close> is the schedule of the coming requests, \<open>True\<close> for a request
  that raises and leaves the tables as they are; past its end no request raises.
  \<open>errors_shown\<close> counts the \<open>st.error("Database error: ...")\<close> messages on the page.
\<close>

record world =
  tables :: "string \<Rightarrow> row list"
  serial :: int
  faults :: "bool list"
  errors_shown :: nat

text \<open>The \<open>pk\<close> entries of \<open>TABLES\<close> (lines 343 to 392).\<close>

definition TABLES :: "(string \<times> string) list" where
  "TABLES =
     [(''customers'', ''customer_id''), (''suppliers'', ''supplier_id''),
      (''products'', ''product_id''), (''employees'', ''employee_id''),
      (''orders'', ''order_id''), (''order_items'', ''order_item_id''),
      (''payments'', ''payment_id''), (''transportation'', ''transport_id'')]"

text \<open>
  The keyword arguments of \<open>execute_query\<close> ride with the operation: \<open>eq\<close> and \<open>neq\<close>
  for a select, \<open>data\<close> for an insert, \<open>data\<close> and \<open>eq\<close> for an update.  These are the
  operations and filters that the order wizard issues.
\<close>

datatype operation =
  Select "(string \<times> val) list" "(string \<times> val) list"
| Insert row
| Update row "(string \<times> val) list"

text \<open>Filters are conjunctive.  As in SQL, a null never satisfies \<open>neq\<close>.\<close>

definition row_eq :: "string \<times> val \<Rightarrow> row \<Rightarrow> bool" where
  "row_eq f r = (map_of r (fst f) = Some (snd f))"

definition row_neq :: "string \<times> val \<Rightarrow> row \<Rightarrow> bool" where
  "row_neq f r =
     (case map_of r (fst f) of None \<Rightarrow> False | Some u \<Rightarrow> u \<noteq> VNone \<and> u \<noteq> snd f)"

definition matches :: "(string \<times> val) list \<Rightarrow> (string \<times> val) list \<Rightarrow> row \<Rightarrow> bool" where
  "matches eqs neqs r = (list_all (\<lambda>f. row_eq f r) eqs \<and> list_all (\<lambda>f. row_neq f r) neqs)"

definition dict_update :: "row \<Rightarrow> row \<Rightarrow> row" where
  "dict_update data r = fold (\<lambda>kv. AList.update (fst kv) (snd kv)) data r"

fun next_fault :: "bool list \<Rightarrow> bool \<times> bool list" where
  "next_fault [] = (False, [])"
| "next_fault (b # bs) = (b, bs)"

text \<open>
  One request: \<open>None\<close> when it raises.  A request on a table the store does not have
  raises.  An insert returns the created row, with the identifier the store assigned;
  an update returns the updated rows.
\<close>

definition request :: "string \<Rightarrow> operation \<Rightarrow> world \<Rightarrow> row list option \<times> world" where
  "request t opn w =
     (case next_fault (faults w) of
        (raises, fs) \<Rightarrow>
          (case map_of TABLES t of
             None \<Rightarrow> (None, w\<lparr>faults := fs\<rparr>)
           | Some pk \<Rightarrow>
               if raises then (None, w\<lparr>faults := fs\<rparr>)
               else
                 (case opn of
                    Select eqs neqs \<Rightarrow>
                      (Some (filter (matches eqs neqs) (tables w t)), w\<lparr>faults := fs\<rparr>)
                  | Insert data \<Rightarrow>
                      (Some [(pk, VInt (serial w)) # data],
                       w\<lparr>tables := (tables w)(t := tables w t @ [(pk, VInt (serial w)) # data]),
                         serial := serial w + 1, faults := fs\<rparr>)
                  | Update data eqs \<Rightarrow>
                      (Some (map (dict_update data) (filter (matches eqs []) (tables w t))),
                       w\<lparr>tables := (tables w)
                            (t := map (\<lambda>r. if matches eqs [] r then dict_update data r else r)
                                    (tables w t)),
                         faults := fs\<rparr>))))"

section \<open>Database functions: \<open>execute_query\<close>\<close>

text \<open>The \<open>try\<close> returns \<open>response.data\<close>; the \<open>except\<close> shows the error and returns \<open>[]\<close>.\<close>

definition execute_query :: "string \<Rightarrow> operation \<Rightarrow> world \<Rightarrow> row list \<times> world" where
  "execute_query t opn w =
     (case request t opn w of
        (Some data, w') \<Rightarrow> (data, w')
      | (None, w') \<Rightarrow> ([], w'\<lparr>errors_shown := errors_shown w' + 1\<rparr>))"

section \<open>The order wizard\<close>

text \<open>
  \<open>page_order_wizard\<close> is one script that Streamlit runs again after every action.
  Each handler is a function of its own here: what the script does, in the run where
  its button or form reports the action, with the session state and the store it
  finds.
\<close>

subsection \<open>Step 2: the product list and the cart\<close>

text \<open>
  Lines 695 to 707.  The query, the report when it returns nothing, and \<open>prod_map\<close>:
  the rows with a positive stock.  The label of a row reads its name, unit price,
  stock and identifier, so a row without one of them raises.  The labels themselves
  (they carry the identifier) are left out: \<open>prod_map\<close> is the list of its rows.
\<close>

definition label_keys :: "row \<Rightarrow> exn + unit" where
  "label_keys p =
     (case getitem p ''name'' of
        Inl e \<Rightarrow> Inl e
      | Inr _ \<Rightarrow>
          (case getitem p ''unit_price'' of
             Inl e \<Rightarrow> Inl e
           | Inr _ \<Rightarrow>
               (case getitem p ''product_id'' of Inl e \<Rightarrow> Inl e | Inr _ \<Rightarrow> Inr ())))"

fun prod_map :: "row list \<Rightarrow> exn + row list" where
  "prod_map [] = Inr []"
| "prod_map (p # ps) =
     (case getitem p ''stock_quantity'' of
        Inl e \<Rightarrow> Inl e
      | Inr s \<Rightarrow>
          (case py_gt0 s of
             Inl e \<Rightarrow> Inl e
           | Inr keep \<Rightarrow>
               if keep then
                 (case label_keys p of
                    Inl e \<Rightarrow> Inl e
                  | Inr _ \<Rightarrow> (case prod_map ps of Inl e \<Rightarrow> Inl e | Inr m \<Rightarrow> Inr (p # m)))
               else prod_map ps))"

datatype step2 = No_products_available | Product_options "row list"

definition step2_products :: "world \<Rightarrow> (exn + step2) \<times> world" where
  "step2_products w =
     (case execute_query ''products''
             (Select [(''stock_quantity'', VInt 0)] [(''stock_quantity'', VInt 0)]) w of
        (products, w1) \<Rightarrow>
          if products = [] then (Inr No_products_available, w1)
          else
            (case prod_map products of
               Inl e \<Rightarrow> (Inl e, w1)
             | Inr m \<Rightarrow> (Inr (Product_options m), w1)))"

text \<open>
  Lines 734 to 759, the handler of "Add to Cart" for the selected row \<open>product\<close> of
  \<open>prod_map\<close>, the quantity and the unit price of the form.  \<open>update_existing\<close> is the
  assignment to \<open>existing_item\<close>, the first line of the cart with the product's
  identifier, which is an element of the cart; a cart line is not an empty
  dictionary, so \<open>if existing_item\<close> holds whenever one is found.  The identifier and
  the name of the product are looked up ahead of the search: a row of \<open>prod_map\<close> has
  both.
\<close>

datatype add_message = Added val | Updated val | Only_units_available int

fun update_existing :: "val \<Rightarrow> int \<Rightarrow> cart_item list \<Rightarrow> cart_item list" where
  "update_existing pid q [] = []"
| "update_existing pid q (item # items) =
     (if py_eq (product_id item) pid
      then item\<lparr>quantity := quantity item + q,
                line_total := of_int (quantity item + q) * unit_price item\<rparr> # items
      else item # update_existing pid q items)"

definition add_to_cart ::
  "row \<Rightarrow> int \<Rightarrow> rat \<Rightarrow> cart_item list \<Rightarrow> exn + cart_item list \<times> add_message" where
  "add_to_cart product q price c =
     (case getitem product ''stock_quantity'' of
        Inl e \<Rightarrow> Inl e
      | Inr s \<Rightarrow>
          (case py_int s of
             Inl e \<Rightarrow> Inl e
           | Inr max_qty \<Rightarrow>
               if q \<le> max_qty then
                 (case getitem product ''product_id'' of
                    Inl e \<Rightarrow> Inl e
                  | Inr pid \<Rightarrow>
                      (case getitem product ''name'' of
                         Inl e \<Rightarrow> Inl e
                       | Inr nm \<Rightarrow>
                           (case find (\<lambda>item. py_eq (product_id item) pid) c of
                              Some existing_item \<Rightarrow> Inr (update_existing pid q c, Updated nm)
                            | None \<Rightarrow>
                                Inr (c @ [\<lparr>product_id = pid, name = nm, quantity = q,
                                           unit_price = price,
                                           line_total = of_int q * price\<rparr>],
                                     Added nm))))
               else Inr (c, Only_units_available max_qty)))"

subsection \<open>Step 5: the commit\<close>

text \<open>Lines 934 to 939.\<close>

fun order_data :: "order_info \<Rightarrow> exn + row" where
  "order_data Order_unset = Inl (KeyError ''customer_id'')"
| "order_data (Order_info c e cn en d s) =
     Inr [(''customer_id'', c), (''employee_id'', e), (''order_date'', VStr d),
          (''status'', VStr s)]"

text \<open>Lines 956 to 961: the stock of the product is read again and written back.\<close>

definition deduct_stock :: "cart_item \<Rightarrow> world \<Rightarrow> exn option \<times> world" where
  "deduct_stock item w =
     (case execute_query ''products'' (Select [(''product_id'', product_id item)] []) w of
        (rows, w1) \<Rightarrow>
          (case rows of
             [] \<Rightarrow> (Some IndexError, w1)
           | current_product # _ \<Rightarrow>
               (case getitem current_product ''stock_quantity'' of
                  Inl e \<Rightarrow> (Some e, w1)
                | Inr stock \<Rightarrow>
                    (case py_sub stock (quantity item) of
                       Inl e \<Rightarrow> (Some e, w1)
                     | Inr new_stock \<Rightarrow>
                         (case execute_query ''products''
                                 (Update [(''stock_quantity'', new_stock)]
                                    [(''product_id'', product_id item)]) w1 of
                            (_, w2) \<Rightarrow> (None, w2))))))"

text \<open>Lines 946 to 961, the loop over the cart; an exception leaves it.\<close>

fun create_items :: "val \<Rightarrow> cart_item list \<Rightarrow> world \<Rightarrow> exn option \<times> world" where
  "create_items order_id [] w = (None, w)"
| "create_items order_id (item # items) w =
     (case execute_query ''order_items''
             (Insert [(''order_id'', order_id), (''product_id'', product_id item),
                      (''quantity'', VInt (quantity item)),
                      (''price'', VNum (line_total item))]) w of
        (_, w1) \<Rightarrow>
          (case deduct_stock item w1 of
             (Some e, w2) \<Rightarrow> (Some e, w2)
           | (None, w2) \<Rightarrow> create_items order_id items w2))"

text \<open>Lines 964 to 971 and 974 to 987.  An empty string is false in Python.\<close>

fun create_payment :: "val \<Rightarrow> payment_info \<Rightarrow> world \<Rightarrow> world" where
  "create_payment order_id (Payment_made d a m) w =
     (if 0 < a
      then snd (execute_query ''payments''
                  (Insert [(''order_id'', order_id), (''payment_date'', VStr d),
                           (''amount'', VNum a), (''payment_mode'', VStr m)]) w)
      else w)"
| "create_payment order_id p w = w"

fun create_transport :: "val \<Rightarrow> transport_info \<Rightarrow> world \<Rightarrow> world" where
  "create_transport order_id (Transport_added v d m dep arr s) w =
     (if v \<noteq> [] \<and> d \<noteq> []
      then snd (execute_query ''transportation''
                  (Insert [(''order_id'', order_id), (''vehicle_number'', VStr v),
                           (''driver_name'', VStr d), (''transport_mode'', VStr m),
                           (''departure_date'', VStr dep), (''arrival_date'', VStr arr),
                           (''status'', VStr s)]) w)
      else w)"
| "create_transport order_id t w = w"

text \<open>Lines 1004 to 1006.\<close>

definition clear_wizard :: "session_state \<Rightarrow> session_state" where
  "clear_wizard ss =
     ss\<lparr>wizard_step := None, order_info := None, cart := None, payment_info := None,
        transport_info := None\<rparr>"

text \<open>
  The buttons of step 5.  A run of the script is started by one action of the user, and
  \<open>st.button\<close> returns True only in the run that the click on that very button has
  started: \<open>st_button clicked label\<close> is what the button \<open>label\<close> returns in the run
  started by \<open>clicked\<close>.
\<close>

datatype widget = Button_create_complete_order | Button_create_another_order | Other_widget

definition st_button :: "widget \<Rightarrow> widget \<Rightarrow> bool" where
  "st_button clicked label = (clicked = label)"

text \<open>
  Lines 932 to 1016, the block under \<open>if st.button("Create Complete Order")\<close>: it is
  run in the run that the click on that button has started.  The outcome is the
  message it ends with: the success, "No order ID returned", or the exception that the
  \<open>except\<close> caught.  The button "Create Another Order" of line 1003 is created inside
  this block, so it is asked in the same run.
\<close>

datatype outcome = Order_created val | Failed_no_order_id | Failed_to_create_order exn

definition create_complete_order ::
  "session_state \<Rightarrow> world \<Rightarrow> outcome \<times> session_state \<times> world" where
  "create_complete_order ss w =
     (case order_info ss of
        None \<Rightarrow> (Failed_to_create_order (AttributeError ''order_info''), ss, w)
      | Some info \<Rightarrow>
     (case order_data info of
        Inl e \<Rightarrow> (Failed_to_create_order e, ss, w)
      | Inr data \<Rightarrow>
     (case execute_query ''orders'' (Insert data) w of
        ([], w1) \<Rightarrow> (Failed_no_order_id, ss, w1)
      | (r # _, w1) \<Rightarrow>
     (case getitem r ''order_id'' of
        Inl e \<Rightarrow> (Failed_to_create_order e, ss, w1)
      | Inr order_id \<Rightarrow>
     (case cart ss of
        None \<Rightarrow> (Failed_to_create_order (AttributeError ''cart''), ss, w1)
      | Some c \<Rightarrow>
     (case create_items order_id c w1 of
        (Some e, w2) \<Rightarrow> (Failed_to_create_order e, ss, w2)
      | (None, w2) \<Rightarrow>
     (case payment_info ss of
        None \<Rightarrow> (Failed_to_create_order (AttributeError ''payment_info''), ss, w2)
      | Some p \<Rightarrow>
     (case transport_info ss of
        None \<Rightarrow>
          (Failed_to_create_order (AttributeError ''transport_info''), ss,
           create_payment order_id p w2)
      | Some t \<Rightarrow>
          (Order_created order_id,
           if st_button Button_create_complete_order Button_create_another_order
           then clear_wizard ss else ss,
           create_transport order_id t (create_payment order_id p w2))))))))))"

text \<open>
  Lines 931 to 1016 in the run started by any action: the block above is entered when
  the button "Create Complete Order" returns True, and nothing of it is run otherwise.
\<close>

definition step5 ::
  "widget \<Rightarrow> session_state \<Rightarrow> world \<Rightarrow> outcome option \<times> session_state \<times> world" where
  "step5 clicked ss w =
     (if st_button clicked Button_create_complete_order
      then (case create_complete_order ss w of (out, ss', w') \<Rightarrow> (Some out, ss', w'))
      else (None, ss, w))"

section \<open>Observations on the store\<close>

text \<open>
  What the properties below observe: the effect of the stock update on one row, the
  stock that the commit reads for a product (the first row with its identifier), the
  rows with a stock that is an integer and not negative, and the cart lines whose
  quantity the stock of their product covers.
\<close>

definition set_stock :: "val \<Rightarrow> val \<Rightarrow> row \<Rightarrow> row" where
  "set_stock pid v r =
     (if row_eq (''product_id'', pid) r then dict_update [(''stock_quantity'', v)] r else r)"

definition current_stock :: "world \<Rightarrow> val \<Rightarrow> val option" where
  "current_stock w pid =
     (case filter (row_eq (''product_id'', pid)) (tables w ''products'') of
        [] \<Rightarrow> None
      | r # _ \<Rightarrow> map_of r ''stock_quantity'')"

definition stock_ok :: "row \<Rightarrow> bool" where
  "stock_ok r = (case map_of r ''stock_quantity'' of Some (VInt n) \<Rightarrow> 0 \<le> n | _ \<Rightarrow> False)"

definition stock_nonneg :: "world \<Rightarrow> bool" where
  "stock_nonneg w = list_all stock_ok (tables w ''products'')"

definition within_stock :: "world \<Rightarrow> cart_item \<Rightarrow> bool" where
  "within_stock w item =
     (case current_stock w (product_id item) of
        Some (VInt n) \<Rightarrow> quantity item \<le> n
      | _ \<Rightarrow> False)"

text \<open>
  For the lines that a commit has gone through: the line has a product with an integer
  stock; the stock of its product in the later store is the one in the earlier store
  minus the quantity of the line; and the order item rows of a list of lines, with
  the identifiers that the store assigns from \<open>n\<close> on.
\<close>

definition has_stock :: "world \<Rightarrow> cart_item \<Rightarrow> bool" where
  "has_stock w item =
     (case current_stock w (product_id item) of Some (VInt n) \<Rightarrow> True | _ \<Rightarrow> False)"

definition deduction_applied :: "world \<Rightarrow> world \<Rightarrow> cart_item \<Rightarrow> bool" where
  "deduction_applied w w' item =
     (case current_stock w (product_id item) of
        Some (VInt n) \<Rightarrow>
          current_stock w' (product_id item) = Some (VInt (n - quantity item))
      | _ \<Rightarrow> False)"

fun order_item_rows :: "val \<Rightarrow> int \<Rightarrow> cart_item list \<Rightarrow> row list" where
  "order_item_rows order_id n [] = []"
| "order_item_rows order_id n (item # items) =
     [(''order_item_id'', VInt n), (''order_id'', order_id),
      (''product_id'', product_id item), (''quantity'', VInt (quantity item)),
      (''price'', VNum (line_total item))]
     # order_item_rows order_id (n + 1) items"

section \<open>A shop\<close>

text \<open>
  One customer, one employee and the product P1, with 10 units in stock at the unit
  price 50; \<open>line q\<close> is the cart line of \<open>q\<close> units of P1 at that price, and
  \<open>at_step5\<close> the session state of a wizard that has reached the last step.
\<close>

definition P1 :: row where
  "P1 = [(''product_id'', VInt 1), (''name'', VStr ''P1''), (''unit_price'', VInt 50),
         (''stock_quantity'', VInt 10)]"

definition shop :: world where
  "shop = \<lparr>tables = (\<lambda>t. [])
             (''customers'' := [[(''customer_id'', VInt 1), (''name'', VStr ''C1'')]],
              ''employees'' := [[(''employee_id'', VInt 1), (''name'', VStr ''E1'')]],
              ''products'' := [P1]),
           serial = 1, faults = [], errors_shown = 0\<rparr>"

definition line :: "int \<Rightarrow> cart_item" where
  "line q = \<lparr>product_id = VInt 1, name = VStr ''P1'', quantity = q, unit_price = 50,
             line_total = of_int q * 50\<rparr>"

definition at_step5 ::
  "cart_item list \<Rightarrow> payment_info \<Rightarrow> transport_info \<Rightarrow> session_state" where
  "at_step5 c p t =
     \<lparr>user = Some [(''name'', VStr ''E1''), (''role'', VStr ''Staff'')], wizard_step = Some 5,
      order_info = Some (Order_info (VInt 1) (VInt 1) ''C1'' ''E1'' ''2024-01-01'' ''Pending''),
      cart = Some c, payment_info = Some p, transport_info = Some t\<rparr>"

text \<open>A second product, with 4 units in stock, and the cart line of one unit of it.\<close>

definition P2 :: row where
  "P2 = [(''product_id'', VInt 2), (''name'', VStr ''P2''), (''unit_price'', VInt 20),
         (''stock_quantity'', VInt 4)]"

definition line2 :: cart_item where
  "line2 = \<lparr>product_id = VInt 2, name = VStr ''P2'', quantity = 1, unit_price = 20,
            line_total = 20\<rparr>"

section \<open>The cart under \<open>add_to_cart\<close>\<close>

lemma find_absent:
  "list_all (\<lambda>i. \<not> P i) c \<Longrightarrow> find P c = None"
  by (induction c) simp_all

lemma filter_absent:
  "list_all (\<lambda>i. \<not> P i) c \<Longrightarrow> filter P c = []"
  by (induction c) simp_all

lemma find_first:
  "list_all (\<lambda>i. \<not> P i) pre \<Longrightarrow> P item \<Longrightarrow> find P (pre @ item # post) = Some item"
  by (induction pre) simp_all

lemma update_existing_first:
  "list_all (\<lambda>i. \<not> py_eq (product_id i) pid) pre \<Longrightarrow> py_eq (product_id item) pid \<Longrightarrow>
     update_existing pid q (pre @ item # post)
       = pre @ item\<lparr>quantity := quantity item + q,
                     line_total := of_int (quantity item + q) * unit_price item\<rparr> # post"
  by (induction pre) simp_all

lemma add_to_cart_accepted:
  assumes "map_of product ''stock_quantity'' = Some s" and "py_int s = Inr max_qty"
    and "map_of product ''product_id'' = Some pid" and "map_of product ''name'' = Some nm"
    and "q \<le> max_qty"
  shows "add_to_cart product q price c
    = (case find (\<lambda>item. py_eq (product_id item) pid) c of
         Some existing_item \<Rightarrow> Inr (update_existing pid q c, Updated nm)
       | None \<Rightarrow>
           Inr (c @ [\<lparr>product_id = pid, name = nm, quantity = q, unit_price = price,
                      line_total = of_int q * price\<rparr>], Added nm))"
  using assms by (simp add: add_to_cart_def getitem_def)

section \<open>The store under \<open>execute_query\<close>\<close>

lemmas store_defs = execute_query_def request_def TABLES_def matches_def row_eq_def
  row_neq_def dict_update_def getitem_def

lemma not_matches_eq_neq: "\<not> matches [f] [f] r"
  by (auto simp: matches_def row_eq_def row_neq_def split: option.splits)

lemma step2_query_empty:
  "fst (execute_query ''products'' (Select [f] [f]) w) = []"
  by (simp add: execute_query_def request_def TABLES_def not_matches_eq_neq split: prod.splits)

lemma step2_products_none: "fst (step2_products w) = Inr No_products_available"
  using step2_query_empty[of "(''stock_quantity'', VInt 0)" w]
  by (auto simp: step2_products_def split: prod.splits)

lemma matches_single: "matches [f] [] = row_eq f"
  by (rule ext) (simp add: matches_def)

lemma next_fault_take2:
  "True \<notin> set (take 2 fs) \<Longrightarrow>
     next_fault fs = (False, tl fs) \<and> next_fault (tl fs) = (False, tl (tl fs))"
  by (cases fs; cases "tl fs") auto

lemma execute_query_other_table:
  "t' \<noteq> t \<Longrightarrow> tables (snd (execute_query t opn w)) t' = tables w t'"
  by (auto simp: execute_query_def request_def split: prod.splits option.splits operation.splits)

lemma execute_query_select_tables:
  "tables (snd (execute_query t (Select eqs neqs) w)) = tables w"
  by (auto simp: execute_query_def request_def split: prod.splits option.splits)

lemma execute_query_insert_tables:
  "\<exists>ys. tables (snd (execute_query t (Insert data) w)) t = tables w t @ ys"
  by (auto simp: execute_query_def request_def split: prod.splits option.splits)

lemma select_products:
  "execute_query ''products'' (Select [(''product_id'', pid)] []) w = (rows, w1) \<Longrightarrow>
     tables w1 = tables w \<and>
     (rows = [] \<or> rows = filter (row_eq (''product_id'', pid)) (tables w ''products''))"
  by (auto simp: execute_query_def request_def TABLES_def matches_single
           split: prod.splits option.splits if_splits)

lemma update_products:
  "execute_query ''products'' (Update [(''stock_quantity'', v)] [(''product_id'', pid)]) w = (rows, w1) \<Longrightarrow>
     (\<forall>t. t \<noteq> ''products'' \<longrightarrow> tables w1 t = tables w t) \<and>
     (tables w1 ''products'' = tables w ''products''
      \<or> tables w1 ''products'' = map (set_stock pid v) (tables w ''products''))"
  by (auto simp: execute_query_def request_def TABLES_def matches_single set_stock_def
           split: prod.splits option.splits if_splits)

lemma deduct_stock_other_table:
  "t \<noteq> ''products'' \<Longrightarrow> tables (snd (deduct_stock item w)) t = tables w t"
  apply (simp add: deduct_stock_def split: prod.splits list.splits sum.splits)
  apply (auto dest!: select_products update_products)
  done

lemma deduct_stock_products:
  "tables (snd (deduct_stock item w)) ''products'' = tables w ''products''
   \<or> (\<exists>s v. current_stock w (product_id item) = Some s \<and> py_sub s (quantity item) = Inr v
        \<and> tables (snd (deduct_stock item w)) ''products''
            = map (set_stock (product_id item) v) (tables w ''products''))"
proof -
  obtain rows w1 where sel:
    "execute_query ''products'' (Select [(''product_id'', product_id item)] []) w = (rows, w1)"
    by (cases "execute_query ''products'' (Select [(''product_id'', product_id item)] []) w")
  from select_products[OF sel] have t1: "tables w1 = tables w"
    and rows: "rows = [] \<or> rows = filter (row_eq (''product_id'', product_id item)) (tables w ''products'')"
    by simp_all
  show ?thesis
  proof (cases rows)
    case Nil
    with sel t1 show ?thesis by (simp add: deduct_stock_def)
  next
    case (Cons r rs)
    with rows have flt: "filter (row_eq (''product_id'', product_id item)) (tables w ''products'') = r # rs"
      by simp
    show ?thesis
    proof (cases "map_of r ''stock_quantity''")
      case None
      with sel Cons t1 show ?thesis by (simp add: deduct_stock_def getitem_def)
    next
      case (Some s)
      then have cur: "current_stock w (product_id item) = Some s"
        by (simp add: current_stock_def flt)
      show ?thesis
      proof (cases "py_sub s (quantity item)")
        case (Inl e)
        with sel Cons Some t1 show ?thesis by (simp add: deduct_stock_def getitem_def)
      next
        case (Inr v)
        obtain rows2 w2 where upd:
          "execute_query ''products'' (Update [(''stock_quantity'', v)] [(''product_id'', product_id item)]) w1 = (rows2, w2)"
          by (cases "execute_query ''products'' (Update [(''stock_quantity'', v)] [(''product_id'', product_id item)]) w1")
        have res: "snd (deduct_stock item w) = w2"
          using sel Cons Some Inr upd by (simp add: deduct_stock_def getitem_def)
        from update_products[OF upd] t1 cur Inr res show ?thesis by auto
      qed
    qed
  qed
qed


lemma map_of_dict_update_single:
  "map_of (dict_update [(k, v)] r) k' = (if k' = k then Some v else map_of r k')"
  by (simp add: dict_update_def update_conv')

lemma row_eq_set_stock:
  "row_eq (''product_id'', p) (set_stock pid v r) = row_eq (''product_id'', p) r"
  by (simp add: set_stock_def row_eq_def map_of_dict_update_single)

lemma set_stock_other:
  "row_eq (''product_id'', p) r \<Longrightarrow> p \<noteq> pid \<Longrightarrow> set_stock pid v r = r"
  by (auto simp: set_stock_def row_eq_def)

lemma filter_set_stock_other:
  "p \<noteq> pid \<Longrightarrow>
     filter (row_eq (''product_id'', p)) (map (set_stock pid v) rows)
       = filter (row_eq (''product_id'', p)) rows"
  by (induction rows) (auto simp: row_eq_set_stock set_stock_other)

lemma filter_set_stock_same:
  "filter (row_eq (''product_id'', pid)) (map (set_stock pid v) rows)
     = map (dict_update [(''stock_quantity'', v)]) (filter (row_eq (''product_id'', pid)) rows)"
  by (induction rows) (auto simp: row_eq_set_stock, auto simp: set_stock_def)

lemma stock_ok_set_stock:
  "stock_ok r \<Longrightarrow> 0 \<le> n \<Longrightarrow> stock_ok (set_stock pid (VInt n) r)"
  by (simp add: stock_ok_def set_stock_def map_of_dict_update_single)

lemma products_only:
  assumes "tables w' ''products'' = tables w ''products''"
  shows "stock_nonneg w' = stock_nonneg w" and "current_stock w' = current_stock w"
    and "within_stock w' = within_stock w"
  using assms by (auto simp: stock_nonneg_def current_stock_def within_stock_def fun_eq_iff)

section \<open>The stock under the commit\<close>


lemma current_stockD:
  assumes "current_stock w pid = Some s"
  obtains r rs where "filter (row_eq (''product_id'', pid)) (tables w ''products'') = r # rs"
    and "map_of r ''stock_quantity'' = Some s"
  using assms by (auto simp: current_stock_def split: list.splits)

lemma within_stockD:
  assumes "within_stock w item"
  obtains n where "current_stock w (product_id item) = Some (VInt n)" and "quantity item \<le> n"
proof (cases "current_stock w (product_id item)")
  case None
  with assms show ?thesis by (simp add: within_stock_def)
next
  case (Some s)
  with assms that show ?thesis by (cases s) (simp_all add: within_stock_def)
qed

lemma stock_nonneg_set_stock:
  assumes "list_all stock_ok rows" and "0 \<le> n"
  shows "list_all stock_ok (map (set_stock pid (VInt n)) rows)"
  using assms by (induction rows) (simp_all add: stock_ok_set_stock)

lemma deduct_stock_nonneg:
  assumes "stock_nonneg w" and "within_stock w item"
  shows "stock_nonneg (snd (deduct_stock item w))"
proof -
  from deduct_stock_products[of item w] show ?thesis
  proof
    assume "tables (snd (deduct_stock item w)) ''products'' = tables w ''products''"
    with assms(1) show ?thesis by (simp add: stock_nonneg_def)
  next
    assume "\<exists>s v. current_stock w (product_id item) = Some s \<and> py_sub s (quantity item) = Inr v
        \<and> tables (snd (deduct_stock item w)) ''products''
            = map (set_stock (product_id item) v) (tables w ''products'')"
    then obtain s v where cur: "current_stock w (product_id item) = Some s"
      and sub: "py_sub s (quantity item) = Inr v"
      and tab: "tables (snd (deduct_stock item w)) ''products''
            = map (set_stock (product_id item) v) (tables w ''products'')"
      by blast
    from assms(2) obtain n where n: "current_stock w (product_id item) = Some (VInt n)"
      and le: "quantity item \<le> n"
      by (rule within_stockD)
    from cur n have s: "s = VInt n" by simp
    from sub s have v: "v = VInt (n - quantity item)" by simp
    from le have "0 \<le> n - quantity item" by simp
    with assms(1) have "list_all stock_ok (map (set_stock (product_id item) (VInt (n - quantity item))) (tables w ''products''))"
      unfolding stock_nonneg_def by (rule stock_nonneg_set_stock)
    then show ?thesis by (simp add: stock_nonneg_def tab v)
  qed
qed

lemma deduct_stock_current_other:
  assumes "p \<noteq> product_id item"
  shows "current_stock (snd (deduct_stock item w)) p = current_stock w p"
proof -
  from deduct_stock_products[of item w] show ?thesis
  proof
    assume "tables (snd (deduct_stock item w)) ''products'' = tables w ''products''"
    then show ?thesis by (simp add: current_stock_def)
  next
    assume "\<exists>s v. current_stock w (product_id item) = Some s \<and> py_sub s (quantity item) = Inr v
        \<and> tables (snd (deduct_stock item w)) ''products''
            = map (set_stock (product_id item) v) (tables w ''products'')"
    then obtain v where tab: "tables (snd (deduct_stock item w)) ''products''
            = map (set_stock (product_id item) v) (tables w ''products'')"
      by blast
    show ?thesis
      unfolding current_stock_def tab using assms by (simp add: filter_set_stock_other)
  qed
qed

lemma deduct_stock_within_other:
  assumes "product_id i \<noteq> product_id item"
  shows "within_stock (snd (deduct_stock item w)) i = within_stock w i"
  using deduct_stock_current_other[OF assms] by (simp add: within_stock_def)


lemma create_items_unfold:
  "snd (create_items oid (item # items) w)
     = (let w1 = snd (execute_query ''order_items''
                        (Insert [(''order_id'', oid), (''product_id'', product_id item),
                                 (''quantity'', VInt (quantity item)),
                                 (''price'', VNum (line_total item))]) w);
            w2 = snd (deduct_stock item w1)
        in case fst (deduct_stock item w1) of
             Some e \<Rightarrow> w2
           | None \<Rightarrow> snd (create_items oid items w2))"
  by (simp add: Let_def split: prod.splits option.splits)

lemma create_items_nonneg:
  "stock_nonneg w \<Longrightarrow> list_all (within_stock w) c \<Longrightarrow> distinct (map product_id c) \<Longrightarrow>
     stock_nonneg (snd (create_items oid c w))"
proof (induction c arbitrary: w)
  case Nil
  then show ?case by simp
next
  case (Cons item items)
  let ?ins = "Insert [(''order_id'', oid), (''product_id'', product_id item),
                      (''quantity'', VInt (quantity item)), (''price'', VNum (line_total item))]"
  define w1 where "w1 = snd (execute_query ''order_items'' ?ins w)"
  define w2 where "w2 = snd (deduct_stock item w1)"
  have p1: "tables w1 ''products'' = tables w ''products''"
    unfolding w1_def by (rule execute_query_other_table) simp
  have n1: "stock_nonneg w1" and ws1: "within_stock w1 = within_stock w"
    using Cons.prems(1) products_only[OF p1] by simp_all
  have n2: "stock_nonneg w2"
    unfolding w2_def using n1 Cons.prems(2) ws1 by (intro deduct_stock_nonneg) simp_all
  have "list_all (within_stock w2) items"
    unfolding list_all_iff
  proof
    fix i assume i: "i \<in> set items"
    then have "product_id i \<in> product_id ` set items" by (rule imageI)
    with Cons.prems(3) have "product_id i \<noteq> product_id item" by auto
    then have "within_stock w2 i = within_stock w1 i"
      unfolding w2_def by (rule deduct_stock_within_other)
    with i Cons.prems(2) ws1 show "within_stock w2 i" by (simp add: list_all_iff)
  qed
  with n2 Cons.prems(3) have "stock_nonneg (snd (create_items oid items w2))"
    by (intro Cons.IH) simp_all
  moreover have "snd (create_items oid (item # items) w)
      = (case fst (deduct_stock item w1) of Some e \<Rightarrow> w2 | None \<Rightarrow> snd (create_items oid items w2))"
    unfolding create_items_unfold Let_def w1_def w2_def ..
  ultimately show ?case using n2 by (simp del: create_items.simps split: option.splits)
qed

lemma create_items_orders:
  "t \<noteq> ''order_items'' \<Longrightarrow> t \<noteq> ''products'' \<Longrightarrow>
     tables (snd (create_items oid c w)) t = tables w t"
proof (induction c arbitrary: w)
  case Nil
  then show ?case by simp
next
  case (Cons item items)
  show ?case
    unfolding create_items_unfold Let_def
    using Cons.prems
    by (simp add: Cons.IH execute_query_other_table deduct_stock_other_table
          del: create_items.simps split: option.splits)
qed

section \<open>The tables under the commit\<close>

lemma create_payment_other_table:
  "t \<noteq> ''payments'' \<Longrightarrow> tables (create_payment oid p w) t = tables w t"
  by (cases p) (simp_all add: execute_query_other_table)

lemma create_transport_other_table:
  "t \<noteq> ''transportation'' \<Longrightarrow> tables (create_transport oid tr w) t = tables w t"
  by (cases tr) (simp_all add: execute_query_other_table)

lemma create_items_order_items:
  "\<exists>ys. tables (snd (create_items oid c w)) ''order_items'' = tables w ''order_items'' @ ys"
proof (induction c arbitrary: w)
  case Nil
  then show ?case by simp
next
  case (Cons item items)
  let ?ins = "Insert [(''order_id'', oid), (''product_id'', product_id item),
                      (''quantity'', VInt (quantity item)), (''price'', VNum (line_total item))]"
  define w1 where "w1 = snd (execute_query ''order_items'' ?ins w)"
  define w2 where "w2 = snd (deduct_stock item w1)"
  obtain ys1 where y1: "tables w1 ''order_items'' = tables w ''order_items'' @ ys1"
    unfolding w1_def using execute_query_insert_tables by blast
  have y2: "tables w2 ''order_items'' = tables w1 ''order_items''"
    unfolding w2_def by (rule deduct_stock_other_table) simp
  obtain ys3 where y3: "tables (snd (create_items oid items w2)) ''order_items''
      = tables w2 ''order_items'' @ ys3"
    using Cons.IH by blast
  have "snd (create_items oid (item # items) w)
      = (case fst (deduct_stock item w1) of Some e \<Rightarrow> w2 | None \<Rightarrow> snd (create_items oid items w2))"
    unfolding create_items_unfold Let_def w1_def w2_def ..
  then show ?case using y1 y2 y3 by (cases "fst (deduct_stock item w1)") simp_all
qed

text \<open>The world that the commit leaves, in terms of the world after the order insert.\<close>

lemma create_complete_order_tables:
  assumes "execute_query ''orders'' (Insert data) w = (r # rs, w1)"
    and "order_info ss = Some info" and "order_data info = Inr data"
  shows "tables (snd (snd (create_complete_order ss w))) ''orders'' = tables w1 ''orders''"
    and "\<exists>ys. tables (snd (snd (create_complete_order ss w))) ''order_items''
            = tables w1 ''order_items'' @ ys"
    and "tables (snd (snd (create_complete_order ss w))) ''products'' = tables w1 ''products''
         \<or> (\<exists>oid c. cart ss = Some c \<and>
              tables (snd (snd (create_complete_order ss w))) ''products''
                = tables (snd (create_items oid c w1)) ''products'')"
proof -
  have *: "tables w2 ''orders'' = tables w1 ''orders''
      \<and> (\<exists>ys. tables w2 ''order_items'' = tables w1 ''order_items'' @ ys)
      \<and> tables w2 ''products'' = tables (snd (create_items oid c w1)) ''products''"
    if "create_items oid c w1 = (x, w2)" for oid c x w2
  proof -
    from that have "w2 = snd (create_items oid c w1)" by simp
    then show ?thesis using create_items_order_items[of oid c w1]
      by (simp add: create_items_orders)
  qed
  show "tables (snd (snd (create_complete_order ss w))) ''orders'' = tables w1 ''orders''"
    using assms
    by (auto simp: create_complete_order_def st_button_def create_payment_other_table
          create_transport_other_table
          split: option.splits sum.splits prod.splits list.splits dest!: *)
  show "\<exists>ys. tables (snd (snd (create_complete_order ss w))) ''order_items''
            = tables w1 ''order_items'' @ ys"
    using assms
    by (auto simp: create_complete_order_def st_button_def create_payment_other_table
          create_transport_other_table
          split: option.splits sum.splits prod.splits list.splits dest!: *)
  show "tables (snd (snd (create_complete_order ss w))) ''products'' = tables w1 ''products''
         \<or> (\<exists>oid c. cart ss = Some c \<and>
              tables (snd (snd (create_complete_order ss w))) ''products''
                = tables (snd (create_items oid c w1)) ''products'')"
    using assms
    by (auto simp: create_complete_order_def st_button_def create_payment_other_table
          create_transport_other_table
          split: option.splits sum.splits prod.splits list.splits dest!: *)
qed


lemma create_complete_order_products:
  "tables (snd (snd (create_complete_order ss w))) ''products'' = tables w ''products''
   \<or> (\<exists>oid c w1. cart ss = Some c \<and> tables w1 ''products'' = tables w ''products'' \<and>
          tables (snd (snd (create_complete_order ss w))) ''products''
            = tables (snd (create_items oid c w1)) ''products'')"
proof (cases "order_info ss")
  case None
  then show ?thesis by (simp add: create_complete_order_def st_button_def)
next
  case (Some info)
  show ?thesis
  proof (cases "order_data info")
    case (Inl e)
    with Some show ?thesis by (simp add: create_complete_order_def st_button_def)
  next
    case (Inr data)
    obtain res w1 where ins: "execute_query ''orders'' (Insert data) w = (res, w1)"
      by (cases "execute_query ''orders'' (Insert data) w")
    then have "w1 = snd (execute_query ''orders'' (Insert data) w)" by simp
    then have p1: "tables w1 ''products'' = tables w ''products''"
      by (simp add: execute_query_other_table)
    show ?thesis
    proof (cases res)
      case Nil
      with Some Inr ins p1 show ?thesis by (simp add: create_complete_order_def st_button_def)
    next
      case (Cons r rs)
      with ins have "execute_query ''orders'' (Insert data) w = (r # rs, w1)" by simp
      from create_complete_order_tables(3)[OF this Some Inr] p1
      show ?thesis by auto
    qed
  qed
qed

section \<open>The lines that a commit has gone through\<close>

lemma has_stockD:
  assumes "has_stock w item"
  obtains n where "current_stock w (product_id item) = Some (VInt n)"
proof (cases "current_stock w (product_id item)")
  case None
  with assms show ?thesis by (simp add: has_stock_def)
next
  case (Some s)
  with assms that show ?thesis by (cases s) (simp_all add: has_stock_def)
qed

lemma next_fault_none:
  "True \<notin> set (take (Suc k) fs) \<Longrightarrow> next_fault fs = (False, tl fs)"
  by (cases fs) auto

lemma take_tl_clean:
  "True \<notin> set (take (Suc k) fs) \<Longrightarrow> True \<notin> set (take k (tl fs))"
  by (cases fs) auto

text \<open>An insert whose request does not raise.\<close>

lemma insert_clean:
  assumes "next_fault (faults w) = (False, tl (faults w))" and "map_of TABLES t = Some pk"
  shows "execute_query t (Insert data) w
    = ([(pk, VInt (serial w)) # data],
       w\<lparr>tables := (tables w)(t := tables w t @ [(pk, VInt (serial w)) # data]),
         serial := serial w + 1, faults := tl (faults w)\<rparr>)"
  using assms by (simp add: execute_query_def request_def)

lemma insert_order_item:
  assumes "next_fault (faults w) = (False, tl (faults w))"
  shows "execute_query ''order_items'' (Insert data) w
    = ([(''order_item_id'', VInt (serial w)) # data],
       w\<lparr>tables := (tables w)
            (''order_items'' := tables w ''order_items''
               @ [(''order_item_id'', VInt (serial w)) # data]),
         serial := serial w + 1, faults := tl (faults w)\<rparr>)"
  using assms by (rule insert_clean) (simp add: TABLES_def)

text \<open>The deduction whose two requests do not raise.\<close>

lemma deduct_stock_clean:
  assumes "True \<notin> set (take 2 (faults w))"
    and "current_stock w (product_id item) = Some (VInt n)"
  shows "fst (deduct_stock item w) = None"
    and "current_stock (snd (deduct_stock item w)) (product_id item)
           = Some (VInt (n - quantity item))"
    and "faults (snd (deduct_stock item w)) = tl (tl (faults w))"
    and "serial (snd (deduct_stock item w)) = serial w"
proof -
  let ?pid = "product_id item"
  let ?v = "VInt (n - quantity item)"
  from assms(2) obtain r rs
    where flt: "filter (row_eq (''product_id'', ?pid)) (tables w ''products'') = r # rs"
      and st: "map_of r ''stock_quantity'' = Some (VInt n)"
    by (rule current_stockD)
  from next_fault_take2[OF assms(1)]
  have f1: "next_fault (faults w) = (False, tl (faults w))"
    and f2: "next_fault (tl (faults w)) = (False, tl (tl (faults w)))"
    by simp_all
  define w1 where "w1 = w\<lparr>faults := tl (faults w)\<rparr>"
  have sel: "execute_query ''products'' (Select [(''product_id'', ?pid)] []) w = (r # rs, w1)"
    by (simp add: execute_query_def request_def TABLES_def f1 matches_single flt w1_def)
  define w2 where
    "w2 = w1\<lparr>tables := (tables w1)
              (''products'' := map (set_stock ?pid ?v) (tables w1 ''products'')),
            faults := tl (tl (faults w))\<rparr>"
  have upd: "snd (execute_query ''products''
                (Update [(''stock_quantity'', ?v)] [(''product_id'', ?pid)]) w1) = w2"
    using f2
    by (simp add: execute_query_def request_def TABLES_def matches_single w1_def w2_def
          set_stock_def[abs_def])
  have res: "deduct_stock item w = (None, w2)"
    using sel st upd by (auto simp: deduct_stock_def getitem_def split: prod.splits)
  have "filter (row_eq (''product_id'', ?pid)) (tables w2 ''products'')
          = map (dict_update [(''stock_quantity'', ?v)]) (r # rs)"
    by (simp add: w2_def w1_def filter_set_stock_same flt)
  then have cur: "current_stock w2 ?pid = Some ?v"
    by (simp add: current_stock_def map_of_dict_update_single)
  from res show "fst (deduct_stock item w) = None" by simp
  from res cur show "current_stock (snd (deduct_stock item w)) ?pid = Some ?v" by simp
  from res show "faults (snd (deduct_stock item w)) = tl (tl (faults w))"
    by (simp add: w2_def)
  from res show "serial (snd (deduct_stock item w)) = serial w"
    by (simp add: w2_def w1_def)
qed


lemma create_items_first:
  fixes oid :: val and item :: cart_item and w :: world
  assumes clean: "True \<notin> set (take 3 (faults w))"
    and st: "current_stock w (product_id item) = Some (VInt n)"
  defines "w3 \<equiv> snd (deduct_stock item (snd (execute_query ''order_items''
             (Insert [(''order_id'', oid), (''product_id'', product_id item),
                      (''quantity'', VInt (quantity item)),
                      (''price'', VNum (line_total item))]) w)))"
  shows "create_items oid (item # items) w = create_items oid items w3"
    and "tables w3 ''order_items''
           = tables w ''order_items''
             @ [[(''order_item_id'', VInt (serial w)), (''order_id'', oid),
                 (''product_id'', product_id item), (''quantity'', VInt (quantity item)),
                 (''price'', VNum (line_total item))]]"
    and "current_stock w3 (product_id item) = Some (VInt (n - quantity item))"
    and "\<And>p. p \<noteq> product_id item \<Longrightarrow> current_stock w3 p = current_stock w p"
    and "serial w3 = serial w + 1"
    and "faults w3 = drop 3 (faults w)"
proof -
  let ?data = "[(''order_id'', oid), (''product_id'', product_id item),
                (''quantity'', VInt (quantity item)), (''price'', VNum (line_total item))]"
  let ?row = "(''order_item_id'', VInt (serial w)) # ?data"
  define w1 where "w1 = snd (execute_query ''order_items'' (Insert ?data) w)"
  have w3: "w3 = snd (deduct_stock item w1)" by (simp add: w3_def w1_def)
  have "True \<notin> set (take (Suc 2) (faults w))"
    using clean by (simp add: numeral_3_eq_3)
  then have f1: "next_fault (faults w) = (False, tl (faults w))"
    and c2: "True \<notin> set (take 2 (tl (faults w)))"
    by (rule next_fault_none, rule take_tl_clean)
  note ins = insert_order_item[OF f1, of ?data]
  have t1: "tables w1 ''order_items'' = tables w ''order_items'' @ [?row]"
    and p1: "tables w1 ''products'' = tables w ''products''"
    and s1: "serial w1 = serial w + 1"
    and fl1: "faults w1 = tl (faults w)"
    by (simp_all add: w1_def ins)
  from products_only(2)[OF p1] st
  have st1: "current_stock w1 (product_id item) = Some (VInt n)" by simp
  from c2 fl1 have c1: "True \<notin> set (take 2 (faults w1))" by simp
  note d = deduct_stock_clean[OF c1 st1]
  show "create_items oid (item # items) w = create_items oid items w3"
    using d(1) by (auto simp: w3 w1_def split: prod.splits)
  show "tables w3 ''order_items'' = tables w ''order_items'' @ [?row]"
    unfolding w3 using t1 by (simp add: deduct_stock_other_table)
  show "current_stock w3 (product_id item) = Some (VInt (n - quantity item))"
    unfolding w3 by (rule d(2))
  show "current_stock w3 p = current_stock w p" if "p \<noteq> product_id item" for p
    unfolding w3 using deduct_stock_current_other[OF that, of w1] products_only(2)[OF p1]
    by simp
  show "serial w3 = serial w + 1"
    unfolding w3 using d(4) s1 by simp
  show "faults w3 = drop 3 (faults w)"
    unfolding w3 using d(3) fl1 by (simp add: numeral_3_eq_3 drop_Suc)
qed


lemma create_items_clean:
  "True \<notin> set (take (3 * length done) (faults w)) \<Longrightarrow> distinct (map product_id done) \<Longrightarrow>
   list_all (has_stock w) done \<Longrightarrow>
     fst (create_items oid done w) = None
     \<and> tables (snd (create_items oid done w)) ''order_items''
         = tables w ''order_items'' @ order_item_rows oid (serial w) done
     \<and> list_all (deduction_applied w (snd (create_items oid done w))) done
     \<and> (\<forall>p. p \<notin> product_id ` set done \<longrightarrow>
            current_stock (snd (create_items oid done w)) p = current_stock w p)
     \<and> serial (snd (create_items oid done w)) = serial w + int (length done)
     \<and> faults (snd (create_items oid done w)) = drop (3 * length done) (faults w)"
proof (induction "done" arbitrary: w)
  case Nil
  then show ?case by simp
next
  case (Cons item items)
  define w3 where "w3 = snd (deduct_stock item (snd (execute_query ''order_items''
             (Insert [(''order_id'', oid), (''product_id'', product_id item),
                      (''quantity'', VInt (quantity item)),
                      (''price'', VNum (line_total item))]) w)))"
  let ?W = "snd (create_items oid items w3)"
  have len: "3 * length (item # items) = 3 + 3 * length items" by simp
  from Cons.prems(1) have clean3: "True \<notin> set (take 3 (faults w))"
    and cleanr: "True \<notin> set (take (3 * length items) (drop 3 (faults w)))"
    unfolding len take_add by simp_all
  from Cons.prems(3) have "has_stock w item" by simp
  then obtain n where st: "current_stock w (product_id item) = Some (VInt n)"
    by (rule has_stockD)
  have f1: "create_items oid (item # items) w = create_items oid items w3"
    unfolding w3_def by (rule create_items_first(1)[OF clean3 st])
  have f2: "tables w3 ''order_items''
           = tables w ''order_items''
             @ [[(''order_item_id'', VInt (serial w)), (''order_id'', oid),
                 (''product_id'', product_id item), (''quantity'', VInt (quantity item)),
                 (''price'', VNum (line_total item))]]"
    unfolding w3_def by (rule create_items_first(2)[OF clean3 st])
  have f3: "current_stock w3 (product_id item) = Some (VInt (n - quantity item))"
    unfolding w3_def by (rule create_items_first(3)[OF clean3 st])
  have f4: "current_stock w3 p = current_stock w p" if "p \<noteq> product_id item" for p
    unfolding w3_def using that by (rule create_items_first(4)[OF clean3 st])
  have f5: "serial w3 = serial w + 1"
    unfolding w3_def by (rule create_items_first(5)[OF clean3 st])
  have f6: "faults w3 = drop 3 (faults w)"
    unfolding w3_def by (rule create_items_first(6)[OF clean3 st])
  have other: "current_stock w3 (product_id i) = current_stock w (product_id i)"
    if "i \<in> set items" for i
  proof -
    from that have "product_id i \<in> product_id ` set items" by (rule imageI)
    with Cons.prems(2) have "product_id i \<noteq> product_id item" by auto
    then show ?thesis by (rule f4)
  qed
  have st3: "list_all (has_stock w3) items"
    using Cons.prems(3) other by (simp add: list_all_iff has_stock_def)
  from Cons.prems(2) have dist: "distinct (map product_id items)" by simp
  from cleanr f6 have clean': "True \<notin> set (take (3 * length items) (faults w3))" by simp
  note ih = Cons.IH[OF clean' dist st3]
  have eq: "create_items oid (item # items) w = create_items oid items w3"
    by (rule f1)
  have a: "fst (create_items oid (item # items) w) = None"
    unfolding eq using ih by simp
  have b: "tables (snd (create_items oid (item # items) w)) ''order_items''
         = tables w ''order_items'' @ order_item_rows oid (serial w) (item # items)"
    unfolding eq using ih f2 f5 by simp
  have notin: "product_id item \<notin> product_id ` set items"
    using Cons.prems(2) by simp
  have "current_stock ?W (product_id item) = current_stock w3 (product_id item)"
    using ih notin by blast
  with f3 st have c1: "deduction_applied w ?W item"
    by (simp add: deduction_applied_def)
  have c2: "list_all (deduction_applied w ?W) items"
    unfolding list_all_iff
  proof
    fix i assume i: "i \<in> set items"
    with ih have "deduction_applied w3 ?W i" by (simp add: list_all_iff)
    with other[OF i] show "deduction_applied w ?W i"
      by (simp add: deduction_applied_def)
  qed
  have c: "list_all (deduction_applied w (snd (create_items oid (item # items) w))) (item # items)"
    unfolding eq using c1 c2 by simp
  have d: "\<forall>p. p \<notin> product_id ` set (item # items) \<longrightarrow>
            current_stock (snd (create_items oid (item # items) w)) p = current_stock w p"
  proof (intro allI impI)
    fix p assume p: "p \<notin> product_id ` set (item # items)"
    then have "p \<notin> product_id ` set items" and "p \<noteq> product_id item" by auto
    with ih f4 show "current_stock (snd (create_items oid (item # items) w)) p
        = current_stock w p"
      unfolding eq by simp
  qed
  have e: "serial (snd (create_items oid (item # items) w)) = serial w + int (length (item # items))"
    unfolding eq using ih f5 by simp
  have g: "faults (snd (create_items oid (item # items) w))
      = drop (3 * length (item # items)) (faults w)"
    unfolding eq len using ih f6 by (simp add: add.commute)
  from a b c d e g show ?case by blast
qed

lemma create_items_current_other:
  "p \<notin> product_id ` set c \<Longrightarrow>
     current_stock (snd (create_items oid c w)) p = current_stock w p"
proof (induction c arbitrary: w)
  case Nil
  then show ?case by simp
next
  case (Cons item items)
  let ?ins = "Insert [(''order_id'', oid), (''product_id'', product_id item),
                      (''quantity'', VInt (quantity item)), (''price'', VNum (line_total item))]"
  define w1 where "w1 = snd (execute_query ''order_items'' ?ins w)"
  define w2 where "w2 = snd (deduct_stock item w1)"
  from Cons.prems have ne: "p \<noteq> product_id item" and ni: "p \<notin> product_id ` set items"
    by auto
  have p1: "tables w1 ''products'' = tables w ''products''"
    unfolding w1_def by (rule execute_query_other_table) simp
  have c2: "current_stock w2 p = current_stock w p"
    unfolding w2_def using deduct_stock_current_other[OF ne, of w1] products_only(2)[OF p1]
    by simp
  have "snd (create_items oid (item # items) w)
      = (case fst (deduct_stock item w1) of Some e \<Rightarrow> w2 | None \<Rightarrow> snd (create_items oid items w2))"
    unfolding create_items_unfold Let_def w1_def w2_def ..
  then show ?case using c2 Cons.IH[OF ni, of w2]
    by (cases "fst (deduct_stock item w1)") simp_all
qed

lemma create_items_append:
  "fst (create_items oid done w) = None \<Longrightarrow>
     create_items oid (done @ rest) w = create_items oid rest (snd (create_items oid done w))"
proof (induction "done" arbitrary: w)
  case Nil
  then show ?case by simp
next
  case (Cons item items)
  then show ?case
    by (auto split: prod.splits option.splits)
qed


lemma create_complete_order_after_items:
  assumes "order_info ss = Some info" and "order_data info = Inr data"
    and "execute_query ''orders'' (Insert data) w = (r # rs, w1)"
    and "getitem r ''order_id'' = Inr oid" and "cart ss = Some c"
    and "t \<noteq> ''payments''" and "t \<noteq> ''transportation''"
  shows "tables (snd (snd (create_complete_order ss w))) t
           = tables (snd (create_items oid c w1)) t"
  using assms
  by (auto simp: create_complete_order_def create_payment_other_table
        create_transport_other_table
        split: option.splits prod.splits)

section \<open>Properties of \<open>check_permissions\<close>\<close>

text \<open>
  Claim C10.  Without a logged-in user the check is False.  For a logged-in user it is
  True for the absent requirement and for every required role other than Manager,
  whatever the role stored in the user's row; for the requirement Manager it is True
  exactly when the stored role is Manager.  So False comes only from a missing user or
  from the requirement Manager met by another role.  The role is read from the user's
  row, which the login takes from the users table.
\<close>

theorem check_permissions_gates_manager_only:
  "check_permissions (ss\<lparr>user := None\<rparr>) required_role = Inr False
   \<and> check_permissions (ss\<lparr>user := Some u\<rparr>) None = Inr True
   \<and> (map_of u ''role'' = Some user_role \<longrightarrow>
        check_permissions (ss\<lparr>user := Some u\<rparr>) (Some rr)
          = Inr (rr \<noteq> ''Manager'' \<or> user_role = VStr ''Manager''))"
  by (simp add: check_permissions_def getitem_def)

theorem check_permissions_gates_manager_only_witness:
  "map_of [(''name'', VStr ''Asha''), (''role'', VStr ''Staff'')] ''role'' = Some (VStr ''Staff'')
   \<and> check_permissions
        \<lparr>user = Some [(''name'', VStr ''Asha''), (''role'', VStr ''Staff'')],
         wizard_step = None, order_info = None, cart = None,
         payment_info = None, transport_info = None\<rparr> (Some ''Staff'') = Inr True
   \<and> check_permissions
        \<lparr>user = Some [(''name'', VStr ''Asha''), (''role'', VStr ''Staff'')],
         wizard_step = None, order_info = None, cart = None,
         payment_info = None, transport_info = None\<rparr> (Some ''Manager'') = Inr False"
  using check_permissions_gates_manager_only
    [of "\<lparr>user = None, wizard_step = None, order_info = None, cart = None,
          payment_info = None, transport_info = None\<rparr>"
        None "[(''name'', VStr ''Asha''), (''role'', VStr ''Staff'')]" "VStr ''Staff''" "''Staff''"]
    check_permissions_gates_manager_only
    [of "\<lparr>user = None, wizard_step = None, order_info = None, cart = None,
          payment_info = None, transport_info = None\<rparr>"
        None "[(''name'', VStr ''Asha''), (''role'', VStr ''Staff'')]" "VStr ''Staff''" "''Manager''"]
  by simp

section \<open>Properties of the persistence gateway\<close>

text \<open>
  Claim C9, as the code has it.  An insert whose request raises is caught inside
  \<open>execute_query\<close>: the tables stay as they are, one more "Database error" message is
  shown, and the value returned is the empty list.  An insert whose request does not
  raise, on a table of the store, returns the one created row and appends it to the
  table.  So the empty list is what a failed insert returns; there is no error value.
\<close>

theorem execute_query_insert_result:
  "(fst (next_fault (faults w)) \<longrightarrow>
      execute_query t (Insert data) w
        = ([], w\<lparr>faults := snd (next_fault (faults w)), errors_shown := errors_shown w + 1\<rparr>))
   \<and> (\<not> fst (next_fault (faults w)) \<longrightarrow> map_of TABLES t = Some pk \<longrightarrow>
      fst (execute_query t (Insert data) w) = [(pk, VInt (serial w)) # data]
      \<and> tables (snd (execute_query t (Insert data) w)) t
          = tables w t @ [(pk, VInt (serial w)) # data])"
  by (auto simp: execute_query_def request_def split: prod.splits option.splits)

theorem execute_query_insert_result_witness:
  "fst (next_fault (faults (shop\<lparr>faults := [True]\<rparr>)))
   \<and> fst (execute_query ''orders'' (Insert [(''customer_id'', VInt 1)]) (shop\<lparr>faults := [True]\<rparr>)) = []
   \<and> \<not> fst (next_fault (faults shop))
   \<and> map_of TABLES ''orders'' = Some ''order_id''
   \<and> fst (execute_query ''orders'' (Insert [(''customer_id'', VInt 1)]) shop)
        = [[(''order_id'', VInt 1), (''customer_id'', VInt 1)]]"
  using execute_query_insert_result
    [of "shop\<lparr>faults := [True]\<rparr>" "''orders''" "[(''customer_id'', VInt 1)]" "''order_id''"]
    execute_query_insert_result
    [of shop "''orders''" "[(''customer_id'', VInt 1)]" "''order_id''"]
  by (simp add: shop_def TABLES_def)

text \<open>
  Claim C9 as stated fails: the insert that raises returns the empty list, the value
  that a select without a matching row returns.
\<close>

theorem failed_insert_returns_empty:
  "fst (execute_query ''orders'' (Insert [(''customer_id'', VInt 1)]) (shop\<lparr>faults := [True]\<rparr>)) = []
   \<and> fst (execute_query ''orders'' (Select [] []) shop) = []"
  by (simp add: store_defs shop_def)

section \<open>Properties of the wizard\<close>

text \<open>
  Claim C4.  The shop has a product with 10 units in stock, and step 2 reports that
  no product with stock is available: its query asks for a stock that is 0 and is
  not 0.
\<close>

theorem step2_products_reports_none:
  "list_ex (\<lambda>p. map_of p ''stock_quantity'' = Some (VInt 10)) (tables shop ''products'')
   \<and> fst (step2_products shop) = Inr No_products_available"
  by (simp add: step2_products_none) (simp add: shop_def P1_def)

text \<open>
  Claim C6.  P1 has 10 units in stock.  The cart holds 8 units of P1 after a first
  addition; a second addition of 3 units is accepted and the line holds 11 units,
  more than the stock: the handler compares the added quantity with the stock, not
  the resulting one.
\<close>

theorem add_to_cart_exceeds_stock:
  "add_to_cart P1 8 50 [] = Inr ([line 8], Added (VStr ''P1''))
   \<and> add_to_cart P1 3 50 [line 8] = Inr ([line 11], Updated (VStr ''P1''))
   \<and> map_of P1 ''stock_quantity'' = Some (VInt 10)"
  by (simp add: add_to_cart_def getitem_def P1_def line_def py_eq_def)

text \<open>
  Claim C8.  In the shop, with any rows already in the tables of orders, order items,
  payments and transportation and any serial \<open>n\<close>: the cart of 3 units of P1 at 50
  has the line total 150, and its commit with payment and transport skipped adds one
  order, adds one order item with product P1, quantity 3 and price 150, leaves P1
  with 7 units, and adds no payment and no transportation.
\<close>

theorem commit_scenario:
  "add_to_cart P1 3 50 [] = Inr ([line 3], Added (VStr ''P1''))
   \<and> line_total (line 3) = 150
   \<and> (case create_complete_order (at_step5 [line 3] Payment_skipped Transport_skipped)
             (shop\<lparr>tables := (tables shop)
                       (''orders'' := os, ''order_items'' := is, ''payments'' := ps,
                        ''transportation'' := ts),
                   serial := n\<rparr>) of
         (out, ss', w') \<Rightarrow>
           out = Order_created (VInt n)
           \<and> tables w' ''orders''
               = os @ [[(''order_id'', VInt n), (''customer_id'', VInt 1),
                        (''employee_id'', VInt 1), (''order_date'', VStr ''2024-01-01''),
                        (''status'', VStr ''Pending'')]]
           \<and> tables w' ''order_items''
               = is @ [[(''order_item_id'', VInt (n + 1)), (''order_id'', VInt n),
                        (''product_id'', VInt 1), (''quantity'', VInt 3),
                        (''price'', VNum 150)]]
           \<and> tables w' ''products''
               = [[(''product_id'', VInt 1), (''name'', VStr ''P1''),
                   (''unit_price'', VInt 50), (''stock_quantity'', VInt 7)]]
           \<and> tables w' ''payments'' = ps
           \<and> tables w' ''transportation'' = ts)"
  by (simp add: add_to_cart_def create_complete_order_def st_button_def deduct_stock_def store_defs
        shop_def P1_def line_def at_step5_def)

text \<open>
  Claim C3, as the code has it.  When neither the select nor the update raises and the
  product has the integer stock \<open>n\<close>, the deduction of a cart line raises nothing and
  leaves the product with \<open>n\<close> minus the quantity of the line, whatever that quantity
  is: the stock is read again, and nothing is compared.
\<close>

theorem deduct_stock_writes_difference:
  assumes "True \<notin> set (take 2 (faults w))"
    and "current_stock w (product_id item) = Some (VInt n)"
  shows "fst (deduct_stock item w) = None
    \<and> current_stock (snd (deduct_stock item w)) (product_id item)
        = Some (VInt (n - quantity item))"
proof -
  let ?pid = "product_id item"
  let ?v = "VInt (n - quantity item)"
  from assms(2) obtain r rs
    where flt: "filter (row_eq (''product_id'', ?pid)) (tables w ''products'') = r # rs"
      and st: "map_of r ''stock_quantity'' = Some (VInt n)"
    by (rule current_stockD)
  from next_fault_take2[OF assms(1)]
  have f1: "next_fault (faults w) = (False, tl (faults w))"
    and f2: "next_fault (tl (faults w)) = (False, tl (tl (faults w)))"
    by simp_all
  define w1 where "w1 = w\<lparr>faults := tl (faults w)\<rparr>"
  have sel: "execute_query ''products'' (Select [(''product_id'', ?pid)] []) w = (r # rs, w1)"
    by (simp add: execute_query_def request_def TABLES_def f1 matches_single flt w1_def)
  define w2 where
    "w2 = w1\<lparr>tables := (tables w1)
              (''products'' := map (set_stock ?pid ?v) (tables w1 ''products'')),
            faults := tl (tl (faults w))\<rparr>"
  have upd: "snd (execute_query ''products''
                (Update [(''stock_quantity'', ?v)] [(''product_id'', ?pid)]) w1) = w2"
    using f2
    by (simp add: execute_query_def request_def TABLES_def matches_single w1_def w2_def
          set_stock_def[abs_def])
  have res: "deduct_stock item w = (None, w2)"
    using sel st upd by (auto simp: deduct_stock_def getitem_def split: prod.splits)
  have "filter (row_eq (''product_id'', ?pid)) (tables w2 ''products'')
          = map (dict_update [(''stock_quantity'', ?v)]) (r # rs)"
    by (simp add: w2_def w1_def filter_set_stock_same flt)
  then have "current_stock w2 ?pid = Some ?v"
    by (simp add: current_stock_def map_of_dict_update_single)
  with res show ?thesis by simp
qed

theorem deduct_stock_writes_difference_witness:
  "True \<notin> set (take 2 (faults shop))
   \<and> current_stock shop (product_id (line 3)) = Some (VInt 10)
   \<and> fst (deduct_stock (line 3) shop) = None
   \<and> current_stock (snd (deduct_stock (line 3) shop)) (product_id (line 3)) = Some (VInt 7)"
proof -
  have a: "True \<notin> set (take 2 (faults shop))" by (simp add: shop_def)
  have b: "current_stock shop (product_id (line 3)) = Some (VInt (10))"
    by (simp add: current_stock_def shop_def P1_def line_def row_eq_def)
  have c: "quantity (line 3) = 3" by (simp add: line_def)
  show ?thesis using a b deduct_stock_writes_difference[OF a b] by (simp add: c)
qed

text \<open>
  Claim C3 as stated fails: P1 has 10 units, the line asks for 12, and the deduction
  raises nothing and writes the stock -2.
\<close>

theorem deduct_stock_below_zero:
  "current_stock shop (product_id (line 12)) = Some (VInt 10)
   \<and> quantity (line 12) = 12
   \<and> fst (deduct_stock (line 12) shop) = None
   \<and> tables (snd (deduct_stock (line 12) shop)) ''products''
       = [[(''product_id'', VInt 1), (''name'', VStr ''P1''), (''unit_price'', VInt 50),
           (''stock_quantity'', VInt (- 2))]]"
  by (simp add: deduct_stock_def store_defs current_stock_def shop_def P1_def line_def)

text \<open>
  Claim C7.  The cart and the step captures are never cleared: the run of the commit
  leaves the session state as it was, and so does the run started by any other action,
  the click on "Create Another Order" among them, where the block that holds the
  clearing is not entered.  In the shop, the commit of 3 units of P1 creates order 1
  and the wizard is still at step 5, with its cart and its captures.
\<close>

theorem commit_never_clears_session:
  "fst (snd (step5 clicked ss w)) = ss
   \<and> (case step5 Button_create_complete_order
              (at_step5 [line 3] Payment_skipped Transport_skipped) shop of
         (out, ss', w') \<Rightarrow>
           out = Some (Order_created (VInt 1)) \<and> wizard_step ss' = Some 5
           \<and> cart ss' = Some [line 3]
           \<and> order_info ss'
               = Some (Order_info (VInt 1) (VInt 1) ''C1'' ''E1'' ''2024-01-01'' ''Pending'')
           \<and> payment_info ss' = Some Payment_skipped
           \<and> transport_info ss' = Some Transport_skipped)"
proof -
  have "fst (snd (create_complete_order ss w)) = ss"
    by (auto simp: create_complete_order_def st_button_def
          split: option.splits sum.splits prod.splits list.splits)
  then have "fst (snd (step5 clicked ss w)) = ss"
    by (auto simp: step5_def split: prod.splits)
  moreover have "case step5 Button_create_complete_order
              (at_step5 [line 3] Payment_skipped Transport_skipped) shop of
         (out, ss', w') \<Rightarrow>
           out = Some (Order_created (VInt 1)) \<and> wizard_step ss' = Some 5
           \<and> cart ss' = Some [line 3]
           \<and> order_info ss'
               = Some (Order_info (VInt 1) (VInt 1) ''C1'' ''E1'' ''2024-01-01'' ''Pending'')
           \<and> payment_info ss' = Some Payment_skipped
           \<and> transport_info ss' = Some Transport_skipped"
    by (simp add: step5_def create_complete_order_def st_button_def deduct_stock_def store_defs
          shop_def P1_def line_def at_step5_def)
  ultimately show ?thesis by simp
qed

text \<open>
  Claim C1, as the code has it.  There is no compensation.  Take a cart that lists
  each product once, and say that the insert of the order and the three requests of
  each of its first lines \<open>done\<close> do not raise, the products of these lines having an
  integer stock.  Then whatever happens on the lines \<open>rest\<close> that follow, whatever
  raises there and however the commit ends, the store holds the order row, the order
  items of the lines \<open>done\<close> and the stock deduction of each of them: nothing that was
  written is deleted or reverted.
\<close>

theorem commit_keeps_what_it_wrote:
  assumes "order_info ss = Some (Order_info cu e cn en d s)"
    and "cart ss = Some (done @ rest)"
    and "True \<notin> set (take (1 + 3 * length done) (faults w))"
    and "distinct (map product_id (done @ rest))"
    and "list_all (has_stock w) done"
  shows "tables (snd (snd (create_complete_order ss w))) ''orders''
           = tables w ''orders''
             @ [[(''order_id'', VInt (serial w)), (''customer_id'', cu), (''employee_id'', e),
                 (''order_date'', VStr d), (''status'', VStr s)]]
    \<and> (\<exists>ys. tables (snd (snd (create_complete_order ss w))) ''order_items''
            = tables w ''order_items''
              @ order_item_rows (VInt (serial w)) (serial w + 1) done @ ys)
    \<and> list_all (deduction_applied w (snd (snd (create_complete_order ss w)))) done"
proof -
  let ?W = "snd (snd (create_complete_order ss w))"
  let ?data = "[(''customer_id'', cu), (''employee_id'', e), (''order_date'', VStr d),
                (''status'', VStr s)]"
  let ?row = "(''order_id'', VInt (serial w)) # ?data"
  let ?oid = "VInt (serial w)"
  define w1 where
    "w1 = w\<lparr>tables := (tables w)(''orders'' := tables w ''orders'' @ [?row]),
            serial := serial w + 1, faults := tl (faults w)\<rparr>"
  from assms(3) have c0: "True \<notin> set (take (Suc (3 * length done)) (faults w))" by simp
  then have nf: "next_fault (faults w) = (False, tl (faults w))"
    and c1: "True \<notin> set (take (3 * length done) (faults w1))"
    by (rule next_fault_none, simp add: w1_def take_tl_clean)
  have ins: "execute_query ''orders'' (Insert ?data) w = (?row # [], w1)"
    unfolding w1_def by (rule insert_clean[OF nf]) (simp add: TABLES_def)
  have od: "order_data (Order_info cu e cn en d s) = Inr ?data" by simp
  have gi: "getitem ?row ''order_id'' = Inr ?oid" by (simp add: getitem_def)
  note fin = create_complete_order_after_items[OF assms(1) od ins gi assms(2)]
  have p1: "tables w1 ''products'' = tables w ''products''" by (simp add: w1_def)
  have st1: "list_all (has_stock w1) done"
    using assms(5) products_only(2)[OF p1] by (simp add: has_stock_def list_all_iff)
  from assms(4) have dist: "distinct (map product_id done)" by simp
  define w2 where "w2 = snd (create_items ?oid done w1)"
  from create_items_clean[OF c1 dist st1, of ?oid]
  have none: "fst (create_items ?oid done w1) = None"
    and items2: "tables w2 ''order_items''
         = tables w1 ''order_items'' @ order_item_rows ?oid (serial w1) done"
    and ded2: "list_all (deduction_applied w1 w2) done"
    by (simp_all add: w2_def)
  define w3 where "w3 = snd (create_items ?oid rest w2)"
  have all: "snd (create_items ?oid (done @ rest) w1) = w3"
    by (simp add: create_items_append[OF none] w3_def w2_def)
  have orders: "tables ?W ''orders'' = tables w ''orders'' @ [?row]"
    using fin[of "''orders''"] all
    by (simp add: w3_def w2_def create_items_orders w1_def)
  obtain ys where ys: "tables w3 ''order_items'' = tables w2 ''order_items'' @ ys"
    unfolding w3_def using create_items_order_items by blast
  have items: "tables ?W ''order_items''
      = tables w ''order_items'' @ order_item_rows ?oid (serial w + 1) done @ ys"
    using fin[of "''order_items''"] all ys items2 by (simp add: w1_def)
  have prods: "tables ?W ''products'' = tables w3 ''products''"
    using fin[of "''products''"] all by simp
  have ded: "list_all (deduction_applied w ?W) done"
    unfolding list_all_iff
  proof
    fix i assume i: "i \<in> set done"
    with assms(4) have "product_id i \<notin> product_id ` set rest" by auto
    then have "current_stock w3 (product_id i) = current_stock w2 (product_id i)"
      unfolding w3_def by (rule create_items_current_other)
    moreover from ded2 i have "deduction_applied w1 w2 i" by (simp add: list_all_iff)
    ultimately show "deduction_applied w ?W i"
      using products_only(2)[OF p1] products_only(2)[OF prods]
      by (auto simp: deduction_applied_def split: option.splits val.splits)
  qed
  from orders items ded show ?thesis by blast
qed

theorem commit_keeps_what_it_wrote_witness:
  "order_info (at_step5 [line 3, line2] Payment_skipped Transport_skipped)
     = Some (Order_info (VInt 1) (VInt 1) ''C1'' ''E1'' ''2024-01-01'' ''Pending'')
   \<and> cart (at_step5 [line 3, line2] Payment_skipped Transport_skipped) = Some ([line 3] @ [line2])
   \<and> True \<notin> set (take (1 + 3 * length [line 3])
                    (faults (shop\<lparr>tables := (tables shop)(''products'' := [P1, P2]),
                                  faults := [False, False, False, False, False, True]\<rparr>)))
   \<and> distinct (map product_id ([line 3] @ [line2]))
   \<and> list_all (has_stock (shop\<lparr>tables := (tables shop)(''products'' := [P1, P2]),
                                  faults := [False, False, False, False, False, True]\<rparr>)) [line 3]
   \<and> (case create_complete_order (at_step5 [line 3, line2] Payment_skipped Transport_skipped)
             (shop\<lparr>tables := (tables shop)(''products'' := [P1, P2]),
                    faults := [False, False, False, False, False, True]\<rparr>) of
         (out, ss', w') \<Rightarrow>
           out = Failed_to_create_order IndexError
           \<and> tables w' ''orders''
               = [[(''order_id'', VInt 1), (''customer_id'', VInt 1), (''employee_id'', VInt 1),
                   (''order_date'', VStr ''2024-01-01''), (''status'', VStr ''Pending'')]]
           \<and> (\<exists>ys. tables w' ''order_items''
                  = [[(''order_item_id'', VInt 2), (''order_id'', VInt 1),
                      (''product_id'', VInt 1), (''quantity'', VInt 3),
                      (''price'', VNum 150)]] @ ys)
           \<and> current_stock w' (VInt 1) = Some (VInt 7)
           \<and> current_stock w' (VInt 2) = Some (VInt 4))"
proof -
  let ?ss = "at_step5 [line 3, line2] Payment_skipped Transport_skipped"
  let ?w = "shop\<lparr>tables := (tables shop)(''products'' := [P1, P2]),
                 faults := [False, False, False, False, False, True]\<rparr>"
  have a: "order_info ?ss
     = Some (Order_info (VInt 1) (VInt 1) ''C1'' ''E1'' ''2024-01-01'' ''Pending'')"
    by (simp add: at_step5_def)
  have b: "cart ?ss = Some ([line 3] @ [line2])" by (simp add: at_step5_def)
  have c: "True \<notin> set (take (1 + 3 * length [line 3]) (faults ?w))" by simp
  have d: "distinct (map product_id ([line 3] @ [line2]))" by (simp add: line_def line2_def)
  have st: "current_stock ?w (VInt 1) = Some (VInt 10)"
    by (simp add: current_stock_def row_eq_def shop_def P1_def P2_def)
  have e: "list_all (has_stock ?w) [line 3]"
    by (simp add: has_stock_def st line_def)
  have out: "fst (create_complete_order ?ss ?w) = Failed_to_create_order IndexError"
    by (simp add: create_complete_order_def st_button_def deduct_stock_def store_defs
          shop_def P1_def P2_def line_def line2_def at_step5_def)
  have st2: "current_stock (snd (snd (create_complete_order ?ss ?w))) (VInt 2) = Some (VInt 4)"
    by (simp add: create_complete_order_def st_button_def deduct_stock_def store_defs
          current_stock_def shop_def P1_def P2_def line_def line2_def at_step5_def)
  obtain out' ss' w' where r: "create_complete_order ?ss ?w = (out', ss', w')"
    by (cases "create_complete_order ?ss ?w")
  have t0: "tables ?w ''orders'' = []" "tables ?w ''order_items'' = []" "serial ?w = 1"
    by (simp_all add: shop_def)
  have l: "product_id (line 3) = VInt 1" "quantity (line 3) = 3" "line_total (line 3) = 150"
    by (simp_all add: line_def)
  from commit_keeps_what_it_wrote[OF a b c d e] r
  have o: "tables w' ''orders''
      = tables ?w ''orders''
        @ [[(''order_id'', VInt (serial ?w)), (''customer_id'', VInt 1),
            (''employee_id'', VInt 1), (''order_date'', VStr ''2024-01-01''),
            (''status'', VStr ''Pending'')]]"
    and i: "\<exists>ys. tables w' ''order_items''
      = tables ?w ''order_items''
        @ order_item_rows (VInt (serial ?w)) (serial ?w + 1) [line 3] @ ys"
    and s: "list_all (deduction_applied ?w w') [line 3]"
    by simp_all
  from o have o': "tables w' ''orders''
      = [[(''order_id'', VInt 1), (''customer_id'', VInt 1), (''employee_id'', VInt 1),
          (''order_date'', VStr ''2024-01-01''), (''status'', VStr ''Pending'')]]"
    unfolding t0 by simp
  from i have i': "\<exists>ys. tables w' ''order_items''
      = [[(''order_item_id'', VInt 2), (''order_id'', VInt 1), (''product_id'', VInt 1),
          (''quantity'', VInt 3), (''price'', VNum 150)]] @ ys"
    unfolding t0 by (simp add: l)
  from s st have s': "current_stock w' (VInt 1) = Some (VInt 7)"
    by (simp add: deduction_applied_def l)
  from out r have "out' = Failed_to_create_order IndexError" by simp
  moreover from st2 r have "current_stock w' (VInt 2) = Some (VInt 4)" by simp
  ultimately show ?thesis using o' i' s' r a b c d e by simp
qed

text \<open>
  Claim C1 as stated fails: the insert of the order item raises, \<open>execute_query\<close>
  returns the empty list, and the loop goes on.  The commit reports the order as
  created; the store holds the order row and the stock deduction of 3 units, and no
  order item.
\<close>

theorem commit_leaves_partial_order:
  "(case create_complete_order (at_step5 [line 3] Payment_skipped Transport_skipped)
          (shop\<lparr>faults := [False, True]\<rparr>) of
      (out, ss', w') \<Rightarrow>
        out = Order_created (VInt 1)
        \<and> errors_shown w' = 1
        \<and> tables w' ''orders''
            = [[(''order_id'', VInt 1), (''customer_id'', VInt 1), (''employee_id'', VInt 1),
                (''order_date'', VStr ''2024-01-01''), (''status'', VStr ''Pending'')]]
        \<and> tables w' ''order_items'' = []
        \<and> tables w' ''products''
            = [[(''product_id'', VInt 1), (''name'', VStr ''P1''), (''unit_price'', VInt 50),
                (''stock_quantity'', VInt 7)]])"
  by (simp add: create_complete_order_def st_button_def deduct_stock_def store_defs
        shop_def P1_def line_def at_step5_def)

text \<open>
  Claim C2, as the code has it.  When every product row has an integer stock that is
  not negative, and the cart lists each product once with a quantity that the stock
  of the product covers at the commit, every product row has an integer stock that is
  not negative after the commit, whatever request raises.
\<close>

theorem commit_keeps_stock_nonneg:
  assumes "stock_nonneg w" and "cart ss = Some c" and "list_all (within_stock w) c"
    and "distinct (map product_id c)"
  shows "stock_nonneg (snd (snd (create_complete_order ss w)))"
proof -
  let ?W = "snd (snd (create_complete_order ss w))"
  from create_complete_order_products[of ss w] show ?thesis
  proof
    assume "tables ?W ''products'' = tables w ''products''"
    with assms(1) show ?thesis by (simp add: stock_nonneg_def)
  next
    assume "\<exists>oid c w1. cart ss = Some c \<and> tables w1 ''products'' = tables w ''products'' \<and>
          tables ?W ''products'' = tables (snd (create_items oid c w1)) ''products''"
    then obtain oid w1 where p1: "tables w1 ''products'' = tables w ''products''"
      and W: "tables ?W ''products'' = tables (snd (create_items oid c w1)) ''products''"
      using assms(2) by auto
    from products_only[OF p1] assms(1,3)
    have "stock_nonneg w1" and "list_all (within_stock w1) c" by simp_all
    then have "stock_nonneg (snd (create_items oid c w1))"
      using assms(4) by (rule create_items_nonneg)
    then show ?thesis by (simp add: stock_nonneg_def W)
  qed
qed

theorem commit_keeps_stock_nonneg_witness:
  "stock_nonneg shop
   \<and> cart (at_step5 [line 3] Payment_skipped Transport_skipped) = Some [line 3]
   \<and> list_all (within_stock shop) [line 3]
   \<and> distinct (map product_id [line 3])
   \<and> stock_nonneg (snd (snd (create_complete_order
        (at_step5 [line 3] Payment_skipped Transport_skipped) shop)))"
proof -
  have a: "stock_nonneg shop" by (simp add: stock_nonneg_def stock_ok_def shop_def P1_def)
  have b: "cart (at_step5 [line 3] Payment_skipped Transport_skipped) = Some [line 3]"
    by (simp add: at_step5_def)
  have c: "list_all (within_stock shop) [line 3]"
    by (simp add: within_stock_def current_stock_def row_eq_def shop_def P1_def line_def)
  have d: "distinct (map product_id [line 3])" by simp
  from commit_keeps_stock_nonneg[OF a b c d] a b c d show ?thesis by simp
qed

text \<open>
  Claim C2 as stated fails: two wizards each add 6 units of P1 while its stock is 10;
  both additions are accepted.  The first commit leaves 4 units, the second one
  writes the stock -2.
\<close>

theorem commits_reach_negative_stock:
  "add_to_cart P1 6 50 [] = Inr ([line 6], Added (VStr ''P1''))
   \<and> stock_nonneg shop
   \<and> (case create_complete_order (at_step5 [line 6] Payment_skipped Transport_skipped) shop of
        (out1, ss1, w1) \<Rightarrow>
          out1 = Order_created (VInt 1) \<and> stock_nonneg w1
          \<and> (case create_complete_order
                    (at_step5 [line 6] Payment_skipped Transport_skipped) w1 of
               (out2, ss2, w2) \<Rightarrow>
                 out2 = Order_created (VInt 3)
                 \<and> tables w2 ''products''
                     = [[(''product_id'', VInt 1), (''name'', VStr ''P1''),
                         (''unit_price'', VInt 50), (''stock_quantity'', VInt (- 2))]]
                 \<and> \<not> stock_nonneg w2))"
  by (simp add: add_to_cart_def create_complete_order_def st_button_def deduct_stock_def store_defs
        stock_nonneg_def stock_ok_def shop_def P1_def line_def at_step5_def)

text \<open>
  Claim C5.  For a product row with its stock, identifier and name, and a quantity
  that the stock check of the handler accepts: when no line of the cart has the
  identifier of the product, the handler appends a line with the quantity, the unit
  price of the form and their product as line total.  When a line has it, the first
  such line gets the quantity added and its line total computed again from its own
  unit price; every other line stays as it was, and a cart with one line of the
  product has one line of it afterwards.  In particular, from a cart without the product, adding \<open>q\<close> and then \<open>q'\<close>
  units leaves the cart with one more line, of \<open>q + q'\<close> units: 3 and then 2 give one
  line of 5.
\<close>

theorem add_to_cart_merges:
  assumes "map_of product ''stock_quantity'' = Some s" and "py_int s = Inr max_qty"
    and "map_of product ''product_id'' = Some pid" and "map_of product ''name'' = Some nm"
    and "q \<le> max_qty"
  shows "(list_all (\<lambda>i. \<not> py_eq (product_id i) pid) c \<longrightarrow>
            add_to_cart product q price c
              = Inr (c @ [\<lparr>product_id = pid, name = nm, quantity = q, unit_price = price,
                           line_total = of_int q * price\<rparr>], Added nm))
    \<and> (list_all (\<lambda>i. \<not> py_eq (product_id i) pid) pre \<and> py_eq (product_id item) pid \<longrightarrow>
            add_to_cart product q price (pre @ item # post)
              = Inr (pre @ item\<lparr>quantity := quantity item + q,
                                 line_total := of_int (quantity item + q) * unit_price item\<rparr>
                           # post, Updated nm))
    \<and> (list_all (\<lambda>i. \<not> py_eq (product_id i) pid) pre \<and> py_eq (product_id item) pid
          \<and> list_all (\<lambda>i. \<not> py_eq (product_id i) pid) post \<longrightarrow>
          (case add_to_cart product q price (pre @ item # post) of
             Inl e \<Rightarrow> False
           | Inr (c1, m) \<Rightarrow>
               length (filter (\<lambda>i. py_eq (product_id i) pid) c1) = 1))
    \<and> (list_all (\<lambda>i. \<not> py_eq (product_id i) pid) c \<and> q' \<le> max_qty \<longrightarrow>
          (case add_to_cart product q price c of
             Inl e \<Rightarrow> False
           | Inr (c1, m) \<Rightarrow>
               add_to_cart product q' price' c1
                 = Inr (c @ [\<lparr>product_id = pid, name = nm, quantity = q + q',
                              unit_price = price,
                              line_total = of_int (q + q') * price\<rparr>], Updated nm)))"
proof (intro conjI impI)
  assume "list_all (\<lambda>i. \<not> py_eq (product_id i) pid) c"
  then show "add_to_cart product q price c
              = Inr (c @ [\<lparr>product_id = pid, name = nm, quantity = q, unit_price = price,
                           line_total = of_int q * price\<rparr>], Added nm)"
    by (simp add: add_to_cart_accepted[OF assms] find_absent)
next
  assume "list_all (\<lambda>i. \<not> py_eq (product_id i) pid) pre \<and> py_eq (product_id item) pid"
  then show "add_to_cart product q price (pre @ item # post)
              = Inr (pre @ item\<lparr>quantity := quantity item + q,
                                 line_total := of_int (quantity item + q) * unit_price item\<rparr>
                           # post, Updated nm)"
    by (simp add: add_to_cart_accepted[OF assms] find_first update_existing_first)
next
  assume "list_all (\<lambda>i. \<not> py_eq (product_id i) pid) pre \<and> py_eq (product_id item) pid
          \<and> list_all (\<lambda>i. \<not> py_eq (product_id i) pid) post"
  then show "case add_to_cart product q price (pre @ item # post) of
             Inl e \<Rightarrow> False
           | Inr (c1, m) \<Rightarrow>
               length (filter (\<lambda>i. py_eq (product_id i) pid) c1) = 1"
    by (simp add: add_to_cart_accepted[OF assms] find_first update_existing_first
          filter_absent)
next
  let ?new = "\<lparr>product_id = pid, name = nm, quantity = q, unit_price = price,
               line_total = of_int q * price\<rparr>"
  assume a: "list_all (\<lambda>i. \<not> py_eq (product_id i) pid) c \<and> q' \<le> max_qty"
  then have first: "add_to_cart product q price c = Inr (c @ [?new], Added nm)"
    by (simp add: add_to_cart_accepted[OF assms] find_absent)
  have same: "py_eq (product_id ?new) pid" by (simp add: py_eq_def)
  from a have q': "q' \<le> max_qty" by simp
  have "add_to_cart product q' price' (c @ ?new # [])
      = Inr (c @ ?new\<lparr>quantity := quantity ?new + q',
                       line_total := of_int (quantity ?new + q') * unit_price ?new\<rparr> # [],
             Updated nm)"
    using a same
    by (simp add: add_to_cart_accepted[OF assms(1-4) q'] find_first update_existing_first)
  with first show "case add_to_cart product q price c of
             Inl e \<Rightarrow> False
           | Inr (c1, m) \<Rightarrow>
               add_to_cart product q' price' c1
                 = Inr (c @ [\<lparr>product_id = pid, name = nm, quantity = q + q',
                              unit_price = price,
                              line_total = of_int (q + q') * price\<rparr>], Updated nm)"
    by simp
qed

theorem add_to_cart_merges_witness:
  "map_of P1 ''stock_quantity'' = Some (VInt 10) \<and> py_int (VInt 10) = Inr 10
   \<and> map_of P1 ''product_id'' = Some (VInt 1) \<and> map_of P1 ''name'' = Some (VStr ''P1'')
   \<and> (3::int) \<le> 10 \<and> (2::int) \<le> 10
   \<and> list_all (\<lambda>i. \<not> py_eq (product_id i) (VInt 1)) []
   \<and> add_to_cart P1 3 50 [] = Inr ([line 3], Added (VStr ''P1''))
   \<and> py_eq (product_id (line 3)) (VInt 1)
   \<and> add_to_cart P1 2 50 [line 3]
       = Inr ([\<lparr>product_id = VInt 1, name = VStr ''P1'', quantity = 5, unit_price = 50,
                line_total = 250\<rparr>], Updated (VStr ''P1''))"
proof -
  have a: "map_of P1 ''stock_quantity'' = Some (VInt 10)" by (simp add: P1_def)
  have b: "py_int (VInt 10) = Inr 10" by simp
  have c: "map_of P1 ''product_id'' = Some (VInt 1)" by (simp add: P1_def)
  have d: "map_of P1 ''name'' = Some (VStr ''P1'')" by (simp add: P1_def)
  have e: "(3::int) \<le> 10" by simp
  have f: "(2::int) \<le> 10" by simp
  have g: "py_eq (product_id (line 3)) (VInt 1)" by (simp add: line_def py_eq_def)
  from add_to_cart_merges[OF a b c d e, where c = "[]" and price = 50]
  have "add_to_cart P1 3 50 [] = Inr ([line 3], Added (VStr ''P1''))"
    by (simp add: line_def)
  moreover from add_to_cart_merges[OF a b c d f, where pre = "[]" and item = "line 3" and post = "[]"
      and price = 50] g
  have "add_to_cart P1 2 50 [line 3]
       = Inr ([\<lparr>product_id = VInt 1, name = VStr ''P1'', quantity = 5, unit_price = 50,
                line_total = 250\<rparr>], Updated (VStr ''P1''))"
    by (simp add: line_def)
  ultimately show ?thesis using a b c d g by simp
qed

end
